theory Spec2Isabelle
  imports Main "HOL-Library.Sublist" "HOL-Library.List_Lexorder" "HOL-Library.Char_ord"
    "HOL-Library.AList"
begin

text \<open>
  A shallow embedding of \<^verbatim>\<open>arklex/utils/loader.py\<close>: the records \<^verbatim>\<open>DocObject\<close> and
  \<^verbatim>\<open>CrawledObject\<close> and the methods of \<^verbatim>\<open>Loader\<close>. What the module takes from outside
  the repository (the browser and the HTML parser, \<^verbatim>\<open>urljoin\<close>, \<^verbatim>\<open>pathlib\<close>, the document
  loaders and the OCR service, the text splitter, \<^verbatim>\<open>uuid4\<close>, the iteration order of a
  Python set, and \<^verbatim>\<open>networkx.pagerank\<close>) is a parameter of the function that uses it.
  Strings are lists of characters; an exception that the code catches or lets escape is a
  value \<open>Inl\<close> of a sum type.
\<close>

section \<open>Python string and list primitives used by the loader\<close>

text \<open>\<^verbatim>\<open>s.startswith(p)\<close>\<close>

definition startswith :: "string \<Rightarrow> string \<Rightarrow> bool" where
  "startswith s p = prefix p s"

text \<open>\<^verbatim>\<open>kw in s\<close> on two strings: \<^verbatim>\<open>kw\<close> occurs in \<^verbatim>\<open>s\<close> as a contiguous run.\<close>

fun str_in :: "string \<Rightarrow> string \<Rightarrow> bool" where
  "str_in kw [] = (kw = [])"
| "str_in kw (c # s) = (prefix kw (c # s) \<or> str_in kw s)"

text \<open>\<^verbatim>\<open>s.split("#")[0]\<close>: everything before the first \<^verbatim>\<open>#\<close>.\<close>

definition split_hash_first :: "string \<Rightarrow> string" where
  "split_hash_first s = takeWhile (\<lambda>c. c \<noteq> CHR ''#'') s"

text \<open>\<^verbatim>\<open>s.rstrip("/")\<close>: every trailing slash is removed.\<close>

definition rstrip_slash :: "string \<Rightarrow> string" where
  "rstrip_slash s = rev (dropWhile (\<lambda>c. c = CHR ''/'') (rev s))"

definition normalize_url :: "string \<Rightarrow> string" where
  "normalize_url u = rstrip_slash (split_hash_first u)"

text \<open>\<^verbatim>\<open>xs[:k]\<close>: a negative bound counts from the end of the list.\<close>

definition slice_to :: "int \<Rightarrow> 'a list \<Rightarrow> 'a list" where
  "slice_to k xs = (if k < 0 then take (length xs - nat (- k)) xs else take (nat k) xs)"

text \<open>\<^verbatim>\<open>sep.join(parts)\<close>\<close>

fun join :: "string \<Rightarrow> string list \<Rightarrow> string" where
  "join sep [] = []"
| "join sep [x] = x"
| "join sep (x # y # ys) = x @ sep @ join sep (y # ys)"

text \<open>
  \<^verbatim>\<open>s.strip()\<close>: leading and trailing whitespace removed. Whitespace is what Python's
  \<^verbatim>\<open>str.isspace\<close> accepts among the ASCII characters: codes 9 to 13 and 28 to 32.
\<close>

definition isspace :: "char \<Rightarrow> bool" where
  "isspace c = (let n = (of_char c :: nat) in (9 \<le> n \<and> n \<le> 13) \<or> (28 \<le> n \<and> n \<le> 32))"

definition strip :: "string \<Rightarrow> string" where
  "strip s = rev (dropWhile isspace (rev (dropWhile isspace s)))"

text \<open>\<^verbatim>\<open>s.lstrip(".")\<close>\<close>

definition lstrip_dot :: "string \<Rightarrow> string" where
  "lstrip_dot s = dropWhile (\<lambda>c. c = CHR ''.'') s"

text \<open>\<^verbatim>\<open>str(i)\<close> for a non-negative integer: its decimal digits.\<close>

definition digit_char :: "nat \<Rightarrow> char" where
  "digit_char d = ''0123456789'' ! d"

fun str_nat :: "nat \<Rightarrow> string" where
  "str_nat n = (if n < 10 then [digit_char n] else str_nat (n div 10) @ [digit_char (n mod 10)])"

declare str_nat.simps [simp del]

text \<open>\<^verbatim>\<open>enumerate(xs)\<close>\<close>

definition enumerate0 :: "'a list \<Rightarrow> (nat \<times> 'a) list" where
  "enumerate0 xs = zip [0..<length xs] xs"

section \<open>Data model: \<^verbatim>\<open>SourceType\<close>, \<^verbatim>\<open>DocObject\<close>, \<^verbatim>\<open>CrawledObject\<close>\<close>

datatype SourceType = WEB | FILE | TEXT

text \<open>
  The field \<^verbatim>\<open>id\<close> is written \<open>id'\<close>. \<^verbatim>\<open>content\<close> and \<^verbatim>\<open>error_message\<close> may be
  \<^verbatim>\<open>None\<close>; \<^verbatim>\<open>metadata\<close> is a dictionary from strings to strings.
\<close>

record DocObject =
  id' :: string
  source :: string

record CrawledObject = DocObject +
  content :: "string option"
  metadata :: "string \<rightharpoonup> string"
  is_chunk :: bool
  is_error :: bool
  error_message :: "string option"
  source_type :: SourceType

text \<open>The message \<^verbatim>\<open>str(err)\<close> of an exception caught by the loader.\<close>

type_synonym exn = string

text \<open>\<^verbatim>\<open>str(uuid.uuid4())\<close>: the identifiers drawn, in the order they are drawn.\<close>

type_synonym uuids = "nat \<Rightarrow> string"

section \<open>FrontierExplorer: \<^verbatim>\<open>Loader.get_all_urls\<close>\<close>

definition kw_list :: "string list" where
  "kw_list = [''.pdf'', ''.jpg'', ''.png'', ''.docx'', ''.xlsx'', ''.pptx'', ''.zip'', ''.jpeg'']"

text \<open>\<^verbatim>\<open>Loader._check_url\<close>\<close>

definition check_url :: "string \<Rightarrow> string \<Rightarrow> bool" where
  "check_url full_url base_url =
     (startswith full_url base_url
      \<and> full_url \<noteq> []
      \<and> \<not> list_ex (\<lambda>kw. str_in kw full_url) kw_list
      \<and> full_url \<noteq> base_url)"

text \<open>
  \<^verbatim>\<open>Loader.get_outsource_urls\<close>. The HTTP request and the HTML parser are outside the
  repository: \<open>links curr_url\<close> is the list of \<^verbatim>\<open>urljoin(curr_url, href)\<close> over the anchors
  of the page that resolve without raising, and \<open>[]\<close> when the request fails or the status
  is not 200. \<open>set_list xs\<close> is Python's \<^verbatim>\<open>list(set(xs))\<close>: the elements of \<open>xs\<close> without
  duplicates, in the iteration order of the hash set, which the language does not fix.
\<close>

definition get_outsource_urls ::
  "(string \<Rightarrow> string list) \<Rightarrow> (string list \<Rightarrow> string list) \<Rightarrow> string \<Rightarrow> string \<Rightarrow> string list"
where
  "get_outsource_urls links set_list curr_url base_url =
     set_list (filter (\<lambda>full_url. check_url full_url base_url)
                 (map normalize_url (links curr_url)))"

text \<open>
  The \<^verbatim>\<open>while urls_to_visit\<close> loop of \<^verbatim>\<open>get_all_urls\<close>, on the pair
  \<open>(urls_visited, urls_to_visit)\<close>; the result is \<open>urls_visited\<close> when the loop ends.
\<close>

function visit_loop ::
  "(string \<Rightarrow> string list) \<Rightarrow> (string list \<Rightarrow> string list) \<Rightarrow> string \<Rightarrow> int
     \<Rightarrow> string list \<Rightarrow> string list \<Rightarrow> string list"
where
  "visit_loop links set_list base_url max_num urls_visited [] = urls_visited"
| "visit_loop links set_list base_url max_num urls_visited (current_url # rest) =
     (if int (length urls_visited) \<ge> max_num then urls_visited
      else if current_url \<in> set urls_visited
        then visit_loop links set_list base_url max_num urls_visited rest
      else visit_loop links set_list base_url max_num (urls_visited @ [current_url])
             (set_list (rest @ get_outsource_urls links set_list current_url base_url)))"
  by pat_completeness auto
termination
  by (relation "measures [\<lambda>(links, set_list, base_url, max_num, urls_visited, urls_to_visit).
                            nat (max_num - int (length urls_visited)),
                          \<lambda>(links, set_list, base_url, max_num, urls_visited, urls_to_visit).
                            length urls_to_visit]") auto

declare visit_loop.simps [simp del]

definition get_all_urls ::
  "(string \<Rightarrow> string list) \<Rightarrow> (string list \<Rightarrow> string list) \<Rightarrow> string \<Rightarrow> int \<Rightarrow> string list"
where
  "get_all_urls links set_list base_url max_num =
     (let base = normalize_url base_url;
          urls_visited = visit_loop links set_list base max_num [] [base]
      in sort (slice_to max_num urls_visited))"


section \<open>Crawler: \<^verbatim>\<open>Loader.crawl_urls\<close>\<close>

text \<open>
  What the HTML parser gives for a page. \<open>strings\<close> is \<^verbatim>\<open>soup.strings\<close> in document
  order; for each string, \<open>anchor\<close> is \<open>None\<close> when \<^verbatim>\<open>string.find_parent("a")\<close> finds
  nothing and \<open>Some h\<close> when it finds an anchor whose \<^verbatim>\<open>get("href")\<close> is \<open>h\<close>
  (\<open>None\<close> for an anchor without the attribute). \<open>titles\<close> is the \<^verbatim>\<open>get_text()\<close> of
  each element of \<^verbatim>\<open>soup.find_all("title")\<close>.
\<close>

record soup_string =
  string_text :: string
  anchor :: "string option option"

record soup =
  strings :: "soup_string list"
  titles :: "string list"

text \<open>
  The loop body that fills \<^verbatim>\<open>text_list\<close> in \<^verbatim>\<open>crawl_urls\<close>. \<open>urljoin\<close> is
  \<^verbatim>\<open>urllib.parse.urljoin\<close>; an exception it raises ends the extraction of the page.
\<close>

fun url_text_list ::
  "(string \<Rightarrow> string option \<Rightarrow> exn + string) \<Rightarrow> string \<Rightarrow> soup_string list \<Rightarrow> exn + string list"
where
  "url_text_list urljoin src [] = Inr []"
| "url_text_list urljoin src (s # rest) =
     (case anchor s of
        Some h \<Rightarrow>
          (case urljoin src h of
             Inl err \<Rightarrow> Inl err
           | Inr href \<Rightarrow>
               (case url_text_list urljoin src rest of
                  Inl err \<Rightarrow> Inl err
                | Inr text_list \<Rightarrow>
                    Inr (if startswith href src then (string_text s @ '' '' @ href) # text_list
                         else text_list)))
      | None \<Rightarrow>
          (case url_text_list urljoin src rest of
             Inl err \<Rightarrow> Inl err
           | Inr text_list \<Rightarrow>
               Inr (if strip (string_text s) \<noteq> [] then string_text s # text_list else text_list)))"

text \<open>The first \<^verbatim>\<open><title>\<close>, or the fallback when the page has none.\<close>

definition first_title :: "string \<Rightarrow> soup \<Rightarrow> string" where
  "first_title fallback sp = (case titles sp of [] \<Rightarrow> fallback | t # _ \<Rightarrow> t)"

text \<open>
  The \<^verbatim>\<open>try\<close> block of one iteration of the \<^verbatim>\<open>for url_obj in url_objects\<close> loop:
  the text and the title, or the message of the exception raised. \<open>page url\<close> is the
  browser's rendering of \<open>url\<close> parsed into a \<open>soup\<close>, or the exception raised on the
  way.
\<close>

definition crawl_try ::
  "(string \<Rightarrow> exn + soup) \<Rightarrow> (string \<Rightarrow> string option \<Rightarrow> exn + string) \<Rightarrow> 'a DocObject_scheme
     \<Rightarrow> exn + (string \<times> string)"
where
  "crawl_try page urljoin url_obj =
     (case page (source url_obj) of
        Inl err \<Rightarrow> Inl err
      | Inr sp \<Rightarrow>
          (case url_text_list urljoin (source url_obj) (strings sp) of
             Inl err \<Rightarrow> Inl err
           | Inr text_list \<Rightarrow>
               Inr (join [CHR 0x0A] text_list, first_title (source url_obj) sp)))"

text \<open>One iteration of the loop: the record appended by the block or by its handler.\<close>

definition crawl_url ::
  "(string \<Rightarrow> exn + soup) \<Rightarrow> (string \<Rightarrow> string option \<Rightarrow> exn + string) \<Rightarrow> DocObject \<Rightarrow> CrawledObject"
where
  "crawl_url page urljoin url_obj =
     (case crawl_try page urljoin url_obj of
        Inr (text_output, title) \<Rightarrow>
          \<lparr>id' = id' url_obj, source = source url_obj, content = Some text_output,
           metadata = [''title'' \<mapsto> title, ''source'' \<mapsto> source url_obj],
           is_chunk = False, is_error = False, error_message = None, source_type = WEB\<rparr>
      | Inl err \<Rightarrow>
          \<lparr>id' = id' url_obj, source = source url_obj, content = None,
           metadata = [''title'' \<mapsto> source url_obj, ''source'' \<mapsto> source url_obj],
           is_chunk = False, is_error = True, error_message = Some err, source_type = WEB\<rparr>)"

fun crawl_loop ::
  "(string \<Rightarrow> exn + soup) \<Rightarrow> (string \<Rightarrow> string option \<Rightarrow> exn + string)
     \<Rightarrow> CrawledObject list \<Rightarrow> DocObject list \<Rightarrow> CrawledObject list"
where
  "crawl_loop page urljoin docs [] = docs"
| "crawl_loop page urljoin docs (url_obj # rest) =
     crawl_loop page urljoin (docs @ [crawl_url page urljoin url_obj]) rest"

text \<open>
  \<^verbatim>\<open>Loader.crawl_urls\<close>. The browser is started before the loop, outside any handler:
  \<open>driver\<close> is \<open>Inl err\<close> when that raises, and the page function otherwise.
\<close>

definition crawl_urls ::
  "(exn + (string \<Rightarrow> exn + soup)) \<Rightarrow> (string \<Rightarrow> string option \<Rightarrow> exn + string)
     \<Rightarrow> DocObject list \<Rightarrow> exn + CrawledObject list"
where
  "crawl_urls driver urljoin url_objects =
     (case driver of
        Inl err \<Rightarrow> Inl err
      | Inr page \<Rightarrow> Inr (crawl_loop page urljoin [] url_objects))"

text \<open>\<^verbatim>\<open>Loader.to_crawled_url_objs\<close>\<close>

definition to_crawled_url_objs ::
  "uuids \<Rightarrow> (exn + (string \<Rightarrow> exn + soup)) \<Rightarrow> (string \<Rightarrow> string option \<Rightarrow> exn + string)
     \<Rightarrow> string list \<Rightarrow> exn + CrawledObject list"
where
  "to_crawled_url_objs uuid4 driver urljoin url_list =
     crawl_urls driver urljoin
       (map (\<lambda>(i, url). \<lparr>id' = uuid4 i, source = url\<rparr>) (enumerate0 url_list))"

section \<open>Text and file ingestion: \<^verbatim>\<open>to_crawled_text\<close>, \<^verbatim>\<open>crawl_file\<close>\<close>

text \<open>\<^verbatim>\<open>Loader.to_crawled_text\<close>\<close>

definition to_crawled_text :: "uuids \<Rightarrow> string list \<Rightarrow> CrawledObject list" where
  "to_crawled_text uuid4 text_list =
     map (\<lambda>(i, text_item).
            \<lparr>id' = uuid4 i, source = ''text'', content = Some text_item, metadata = Map.empty,
             is_chunk = False, is_error = False, error_message = None, source_type = TEXT\<rparr>)
         (enumerate0 text_list)"

text \<open>
  What \<^verbatim>\<open>crawl_file\<close> takes from outside the repository: \<^verbatim>\<open>pathlib\<close>
  (\<^verbatim>\<open>Path(p).suffix\<close>, \<^verbatim>\<open>Path(p).name\<close>, \<^verbatim>\<open>str(Path(p))\<close>), the environment variable
  \<^verbatim>\<open>MISTRAL_API_KEY\<close>, the OCR service (the \<^verbatim>\<open>markdown\<close> of each page, or the exception
  raised), the HTML file read and parsed, and the document loaders (the
  \<^verbatim>\<open>page_content\<close> of each loaded document, or the exception raised).
\<close>

datatype loader =
  PyPDFLoader | UnstructuredWordDocumentLoader | UnstructuredExcelLoader
  | TextLoader | UnstructuredMarkdownLoader | UnstructuredPowerPointLoader

record file_env =
  path_suffix :: "string \<Rightarrow> string"
  path_name :: "string \<Rightarrow> string"
  path_str :: "string \<Rightarrow> string"
  mistral_api_key :: "string option"
  ocr_document :: "string \<Rightarrow> exn + string list"
  ocr_image :: "string \<Rightarrow> string \<Rightarrow> exn + string list"
  read_html :: "string \<Rightarrow> exn + soup"
  load :: "loader \<Rightarrow> string \<Rightarrow> exn + string list"

text \<open>The \<^verbatim>\<open>text_list\<close> loop of the \<^verbatim>\<open>html\<close> branch: the raw \<^verbatim>\<open>href\<close> is formatted as is.\<close>

fun file_text_list :: "soup_string list \<Rightarrow> string list" where
  "file_text_list [] = []"
| "file_text_list (s # rest) =
     (case anchor s of
        Some h \<Rightarrow>
          (string_text s @ '' '' @ (case h of None \<Rightarrow> ''None'' | Some href \<Rightarrow> href))
            # file_text_list rest
      | None \<Rightarrow>
          (if strip (string_text s) \<noteq> [] then string_text s # file_text_list rest
           else file_text_list rest))"

text \<open>
  The body of the \<^verbatim>\<open>try\<close> block of \<^verbatim>\<open>crawl_file\<close>: the extracted text and the title, or
  the message of the exception that leaves the block.
\<close>

definition extract_file :: "file_env \<Rightarrow> string \<Rightarrow> string \<Rightarrow> string \<Rightarrow> exn + (string \<times> string)" where
  "extract_file env file_path file_type file_name =
     (if file_type = [] then
        Inl (''No file type detected for file: '' @ path_str env file_path)
      else if file_type \<in> set [''pdf'', ''png'', ''jpg'', ''jpeg'', ''pptx'', ''ppt'']
              \<and> (mistral_api_key env \<noteq> None
                   \<and> mistral_api_key env \<noteq> Some ''<your-mistral-api-key>'') then
        (case (if file_type \<in> set [''pdf'', ''pptx'', ''ppt''] then ocr_document env file_path
               else ocr_image env file_type file_path) of
           Inl err \<Rightarrow> Inl err
         | Inr pages \<Rightarrow> Inr (concat pages, file_name))
      else if file_type = ''html'' then
        (case read_html env file_path of
           Inl err \<Rightarrow> Inl err
         | Inr sp \<Rightarrow>
             Inr (join [CHR 0x0A] (file_text_list (strings sp)), first_title file_name sp))
      else
        (case (if file_type = ''pdf'' then Inr PyPDFLoader
               else if file_type = ''doc'' \<or> file_type = ''docx'' then
                 Inr UnstructuredWordDocumentLoader
               else if file_type = ''xlsx'' \<or> file_type = ''xls'' then
                 Inr UnstructuredExcelLoader
               else if file_type = ''txt'' then Inr TextLoader
               else if file_type = ''md'' then Inr UnstructuredMarkdownLoader
               else if file_type = ''pptx'' \<or> file_type = ''ppt'' then
                 Inr UnstructuredPowerPointLoader
               else Inl (''Unsupported file type. If you are trying to upload a pdf, make ''
                         @ ''sure it is less than 50MB. Images are only supported with the ''
                         @ ''advanced parser.'')) of
           Inl err \<Rightarrow> Inl err
         | Inr ld \<Rightarrow>
             (case load env ld file_path of
                Inl err \<Rightarrow> Inl err
              | Inr pages \<Rightarrow> Inr (join [CHR 0x0A] pages, file_name))))"

text \<open>\<^verbatim>\<open>Loader.crawl_file\<close>\<close>

definition crawl_file :: "file_env \<Rightarrow> DocObject \<Rightarrow> CrawledObject" where
  "crawl_file env local_obj =
     (let file_path = source local_obj;
          file_type = lstrip_dot (path_suffix env file_path);
          file_name = path_name env file_path
      in case extract_file env file_path file_type file_name of
           Inr (doc_text, title) \<Rightarrow>
             \<lparr>id' = id' local_obj, source = source local_obj, content = Some doc_text,
              metadata = [''title'' \<mapsto> title, ''source'' \<mapsto> source local_obj],
              is_chunk = False, is_error = False, error_message = None, source_type = FILE\<rparr>
         | Inl err_msg \<Rightarrow>
             \<lparr>id' = id' local_obj, source = source local_obj, content = None,
              metadata = [''title'' \<mapsto> file_name],
              is_chunk = False, is_error = True, error_message = Some err_msg,
              source_type = FILE\<rparr>)"

text \<open>\<^verbatim>\<open>Loader.to_crawled_local_objs\<close>\<close>

definition to_crawled_local_objs :: "uuids \<Rightarrow> file_env \<Rightarrow> string list \<Rightarrow> CrawledObject list" where
  "to_crawled_local_objs uuid4 env file_list =
     map (crawl_file env)
       (map (\<lambda>(i, file). \<lparr>id' = uuid4 i, source = file\<rparr>) (enumerate0 file_list))"

section \<open>Chunker: \<^verbatim>\<open>Loader.chunk\<close>\<close>

text \<open>The \<^verbatim>\<open>langchain_core\<close> document: \<^verbatim>\<open>page_content\<close> and \<^verbatim>\<open>metadata\<close>.\<close>

record Document =
  page_content :: string
  document_metadata :: "string \<rightharpoonup> string"

text \<open>
  The record built for the piece \<open>piece\<close> of index \<open>i\<close> of \<open>doc_obj\<close>:
  \<^verbatim>\<open>CrawledObject(id=doc_obj.id + "_" + str(i), ..., is_chunk=True, ...)\<close>, with the
  constructor's defaults for \<^verbatim>\<open>is_error\<close> and \<^verbatim>\<open>error_message\<close>.
\<close>

definition make_chunk :: "CrawledObject \<Rightarrow> nat \<times> string \<Rightarrow> CrawledObject" where
  "make_chunk doc_obj ip =
     (case ip of (i, piece) \<Rightarrow>
        \<lparr>id' = id' doc_obj @ ''_'' @ str_nat i, source = source doc_obj,
         content = Some piece, metadata = metadata doc_obj,
         is_chunk = True, is_error = False, error_message = None,
         source_type = source_type doc_obj\<rparr>)"

text \<open>
  One iteration of \<^verbatim>\<open>for doc_obj in doc_objs\<close> on the two lists \<open>(docs, langchain_docs)\<close>.
  \<open>split_text\<close> is the token-based text splitter, which is outside the repository. The
  first test, \<^verbatim>\<open>doc_obj.is_error or doc_obj.content is None\<close>, is the \<open>None\<close> case
  together with the first \<open>if\<close>.
\<close>

definition chunk_step ::
  "(string \<Rightarrow> string list) \<Rightarrow> CrawledObject list \<times> Document list \<Rightarrow> CrawledObject
     \<Rightarrow> CrawledObject list \<times> Document list"
where
  "chunk_step split_text st doc_obj =
     (case st of (docs, langchain_docs) \<Rightarrow>
        (case content doc_obj of
           None \<Rightarrow> (docs, langchain_docs)
         | Some c \<Rightarrow>
             if is_error doc_obj then (docs, langchain_docs)
             else if is_chunk doc_obj then (docs @ [doc_obj], langchain_docs)
             else
               (let splitted_text = split_text c
                in (docs @ map (make_chunk doc_obj) (enumerate0 splitted_text),
                    langchain_docs @ map (\<lambda>piece.
                                  \<lparr>page_content = piece,
                                   document_metadata = [''source'' \<mapsto> source doc_obj]\<rparr>)
                              splitted_text))))"

text \<open>The two lists when the loop of \<^verbatim>\<open>chunk\<close> ends.\<close>

definition chunk_lists ::
  "(string \<Rightarrow> string list) \<Rightarrow> CrawledObject list \<Rightarrow> CrawledObject list \<times> Document list"
where
  "chunk_lists split_text doc_objs = foldl (chunk_step split_text) ([], []) doc_objs"

text \<open>The list of records that \<^verbatim>\<open>chunk\<close> builds in its local \<^verbatim>\<open>docs\<close>.\<close>

definition chunk_docs :: "(string \<Rightarrow> string list) \<Rightarrow> CrawledObject list \<Rightarrow> CrawledObject list" where
  "chunk_docs split_text doc_objs = fst (chunk_lists split_text doc_objs)"

text \<open>\<^verbatim>\<open>Loader.chunk\<close>: the function ends with \<^verbatim>\<open>return langchain_docs\<close>.\<close>

definition chunk :: "(string \<Rightarrow> string list) \<Rightarrow> CrawledObject list \<Rightarrow> Document list" where
  "chunk split_text doc_objs = snd (chunk_lists split_text doc_objs)"

section \<open>LinkGraphRanker: \<^verbatim>\<open>Loader.get_candidates_websites\<close>\<close>

datatype error = TypeError | KeyError | PageRankError exn

text \<open>
  The first loop: \<^verbatim>\<open>url_to_id_mapping[url.source] = url.id\<close> for every record, in error
  or not. A Python dictionary keeps a key at the position of its first insertion and
  takes the value of the last one, as \<open>AList.update\<close> does on an association list.
\<close>

definition url_to_id_mapping :: "CrawledObject list \<Rightarrow> (string \<times> string) list" where
  "url_to_id_mapping urls = foldl (\<lambda>m url. AList.update (source url) (id' url) m) [] urls"

text \<open>
  The inner loop \<^verbatim>\<open>for url_key in url_to_id_mapping\<close> for one record that is not in
  error: \<^verbatim>\<open>url_key in url.content\<close> raises \<^verbatim>\<open>TypeError\<close> when the content is
  \<^verbatim>\<open>None\<close>.
\<close>

definition url_edges :: "(string \<times> string) list \<Rightarrow> CrawledObject \<Rightarrow> error + (string \<times> string) list" where
  "url_edges mapping url =
     (case content url of
        None \<Rightarrow> (if mapping = [] then Inr [] else Inl TypeError)
      | Some c \<Rightarrow>
          Inr (map (\<lambda>(url_key, target). (id' url, target))
                 (filter (\<lambda>(url_key, target). str_in url_key c) mapping)))"

text \<open>The second loop, on the lists \<open>(nodes, edges)\<close>.\<close>

fun nodes_edges_loop ::
  "(string \<times> string) list \<Rightarrow> (string \<times> CrawledObject) list \<times> (string \<times> string) list
     \<Rightarrow> CrawledObject list \<Rightarrow> error + (string \<times> CrawledObject) list \<times> (string \<times> string) list"
where
  "nodes_edges_loop mapping (nodes, edges) [] = Inr (nodes, edges)"
| "nodes_edges_loop mapping (nodes, edges) (url # rest) =
     (if is_error url then nodes_edges_loop mapping (nodes, edges) rest
      else
        (case url_edges mapping url of
           Inl err \<Rightarrow> Inl err
         | Inr new_edges \<Rightarrow>
             nodes_edges_loop mapping (nodes @ [(id' url, url)], edges @ new_edges) rest))"

text \<open>
  The \<^verbatim>\<open>networkx.DiGraph\<close>: its nodes in insertion order, each with its attribute
  dictionary, and its edges in insertion order. The attribute dictionary of a node is
  either empty (\<open>None\<close>) or the \<^verbatim>\<open>to_dict()\<close> of a record, which \<^verbatim>\<open>from_dict\<close> turns
  back into that record (\<open>Some\<close> of the record).
\<close>

record digraph =
  graph_nodes :: "(string \<times> CrawledObject option) list"
  graph_edges :: "(string \<times> string) list"

definition has_node :: "digraph \<Rightarrow> string \<Rightarrow> bool" where
  "has_node g n = (n \<in> set (map fst (graph_nodes g)))"

text \<open>
  One step of \<^verbatim>\<open>add_nodes_from\<close>: a new node is appended; the attributes of the node
  are updated with every key of the record's dictionary.
\<close>

definition add_node :: "digraph \<Rightarrow> string \<times> CrawledObject \<Rightarrow> digraph" where
  "add_node g nd =
     (case nd of (n, ndict) \<Rightarrow>
        if has_node g n
        then g\<lparr>graph_nodes := map (\<lambda>(m, d). if m = n then (m, Some ndict) else (m, d))
                                (graph_nodes g)\<rparr>
        else g\<lparr>graph_nodes := graph_nodes g @ [(n, Some ndict)]\<rparr>)"

text \<open>An end point of an edge that is not a node yet becomes one, with no attributes.\<close>

definition ensure_node :: "digraph \<Rightarrow> string \<Rightarrow> digraph" where
  "ensure_node g n = (if has_node g n then g else g\<lparr>graph_nodes := graph_nodes g @ [(n, None)]\<rparr>)"

text \<open>One step of \<^verbatim>\<open>add_edges_from\<close>.\<close>

definition add_edge :: "digraph \<Rightarrow> string \<times> string \<Rightarrow> digraph" where
  "add_edge g e =
     (case e of (u, v) \<Rightarrow>
        (let g' = ensure_node (ensure_node g u) v
         in if (u, v) \<in> set (graph_edges g') then g'
            else g'\<lparr>graph_edges := graph_edges g' @ [(u, v)]\<rparr>))"

text \<open>The graph after \<^verbatim>\<open>add_nodes_from(nodes)\<close> and \<^verbatim>\<open>add_edges_from(edges)\<close>.\<close>

definition website_graph :: "CrawledObject list \<Rightarrow> error + digraph" where
  "website_graph urls =
     (case nodes_edges_loop (url_to_id_mapping urls) ([], []) urls of
        Inl err \<Rightarrow> Inl err
      | Inr (nodes, edges) \<Rightarrow>
          Inr (foldl add_edge
                 (foldl add_node \<lparr>graph_nodes = [], graph_edges = []\<rparr> nodes) edges))"





section \<open>The invariant of a record\<close>

text \<open>
  \<^verbatim>\<open>is_error\<close> is set exactly when \<^verbatim>\<open>error_message\<close> is present, and \<^verbatim>\<open>content\<close> is
  \<^verbatim>\<open>None\<close> exactly when \<^verbatim>\<open>is_error\<close> is set.
\<close>

definition record_invariant :: "CrawledObject \<Rightarrow> bool" where
  "record_invariant r =
     ((is_error r \<longleftrightarrow> error_message r \<noteq> None) \<and> (content r = None \<longleftrightarrow> is_error r))"

section \<open>Example inputs\<close>

text \<open>
  A browser that renders \<^verbatim>\<open>http://s\<close> and fails on every other URL. The page has a
  title, a heading, an anchor to a page of the site, and an anchor to another site.
\<close>

definition example_soup :: soup where
  "example_soup =
     \<lparr>strings = [\<lparr>string_text = ''Welcome'', anchor = None\<rparr>,
                 \<lparr>string_text = ''  '', anchor = None\<rparr>,
                 \<lparr>string_text = ''about'', anchor = Some (Some ''/a'')\<rparr>,
                 \<lparr>string_text = ''partner'', anchor = Some (Some ''http://other/x'')\<rparr>],
      titles = [''Home'', ''Second'']\<rparr>"

definition example_page :: "string \<Rightarrow> exn + soup" where
  "example_page url = (if url = ''http://s'' then Inr example_soup else Inl ''timeout'')"

definition example_urljoin :: "string \<Rightarrow> string option \<Rightarrow> exn + string" where
  "example_urljoin base href =
     (case href of
        None \<Rightarrow> Inr base
      | Some h \<Rightarrow> if prefix ''http://'' h then Inr h else Inr (base @ h))"

definition example_uuid4 :: uuids where
  "example_uuid4 i = ''uuid-'' @ str_nat i"

text \<open>A page whose only string is an anchor to another site.\<close>

definition offsite_page :: "string \<Rightarrow> exn + soup" where
  "offsite_page url =
     Inr \<lparr>strings = [\<lparr>string_text = ''partner'', anchor = Some (Some ''http://other/x'')\<rparr>],
          titles = []\<rparr>"

text \<open>A file system with one text file, no OCR key, and loaders that read it.\<close>

definition example_env :: file_env where
  "example_env =
     \<lparr>path_suffix = (\<lambda>p. if CHR ''.'' \<in> set p
                           then CHR ''.'' # rev (takeWhile (\<lambda>c. c \<noteq> CHR ''.'') (rev p))
                           else []),
      path_name = (\<lambda>p. p),
      path_str = (\<lambda>p. p),
      mistral_api_key = None,
      ocr_document = (\<lambda>p. Inl ''no OCR''),
      ocr_image = (\<lambda>t p. Inl ''no OCR''),
      read_html = (\<lambda>p. Inl ''no such file''),
      load = (\<lambda>ld p. if p = ''notes.txt'' then Inr [''first'', ''second''] else Inl ''no such file'')\<rparr>"

text \<open>A site of one page with four links, and two iteration orders of a hash set.\<close>

definition example_site :: "string \<Rightarrow> string list" where
  "example_site u =
     (if u = ''http://s''
      then [''http://s/a#top'', ''http://s/b/'', ''http://t/c'', ''http://s/d.pdf'']
      else [])"

text \<open>
  A site two levels deep, and the listing of a set that keeps the order of first
  insertion: with it the queue of \<^verbatim>\<open>get_all_urls\<close> stays first-in first-out.
\<close>

definition deep_site :: "string \<Rightarrow> string list" where
  "deep_site u =
     (if u = ''http://s'' then [''http://s/a'', ''http://s/b'']
      else if u = ''http://s/a'' then [''http://s/a/c'']
      else [])"

definition set_list_fifo :: "string list \<Rightarrow> string list" where
  "set_list_fifo xs = rev (remdups (rev xs))"

definition no_links :: "string \<Rightarrow> string list" where
  "no_links u = []"

definition set_list_up :: "string list \<Rightarrow> string list" where
  "set_list_up xs = sort (remdups xs)"

definition set_list_down :: "string list \<Rightarrow> string list" where
  "set_list_down xs = rev (sort (remdups xs))"

text \<open>A splitter that cuts a text at every space, a fresh document and a chunk.\<close>

fun split_spaces :: "string \<Rightarrow> string list" where
  "split_spaces [] = [[]]"
| "split_spaces (c # s) =
     (if c = CHR '' '' then [] # split_spaces s
      else (case split_spaces s of [] \<Rightarrow> [[c]] | w # ws \<Rightarrow> (c # w) # ws))"

definition example_doc :: CrawledObject where
  "example_doc =
     \<lparr>id' = ''doc1'', source = ''http://s'', content = Some ''one two three'',
      metadata = [''title'' \<mapsto> ''Home'', ''source'' \<mapsto> ''http://s''],
      is_chunk = False, is_error = False, error_message = None, source_type = WEB\<rparr>"

definition example_chunk :: CrawledObject where
  "example_chunk =
     \<lparr>id' = ''doc0_0'', source = ''http://s'', content = Some ''already chunked text'',
      metadata = [''title'' \<mapsto> ''Home'', ''source'' \<mapsto> ''http://s''],
      is_chunk = True, is_error = False, error_message = None, source_type = WEB\<rparr>"





section \<open>Properties of the string primitives\<close>

lemma str_in_iff_sublist: "str_in kw s \<longleftrightarrow> sublist kw s"
  by (induction s) (auto simp: sublist_Cons_right)

lemma suffix_str_in: "suffix kw s \<Longrightarrow> str_in kw s"
  by (simp add: str_in_iff_sublist suffix_imp_sublist)

lemma set_slice_to: "set (slice_to k xs) \<subseteq> set xs"
  by (auto simp: slice_to_def dest: in_set_takeD)





section \<open>Properties of \<^verbatim>\<open>get_all_urls\<close>\<close>

lemmas get_all_urls_eval =
  get_all_urls_def normalize_url_def rstrip_slash_def split_hash_first_def slice_to_def
  visit_loop.simps get_outsource_urls_def example_site_def check_url_def startswith_def
  kw_list_def set_list_up_def set_list_down_def

lemma visit_loop_prefix:
  "\<exists>ys. visit_loop links set_list base max_num visited queue = visited @ ys"
  by (induction links set_list base max_num visited queue rule: visit_loop.induct)
    (auto simp: visit_loop.simps)

lemma get_outsource_urls_checked:
  assumes "\<And>xs. set (set_list xs) \<subseteq> set xs"
  shows "\<forall>u \<in> set (get_outsource_urls links set_list curr_url base). check_url u base"
  using assms[of "filter (\<lambda>full_url. check_url full_url base) (map normalize_url (links curr_url))"]
  by (auto simp: get_outsource_urls_def)

text \<open>
  Every URL in the visited list or in the queue is the start URL or has passed
  \<^verbatim>\<open>_check_url\<close>; the loop keeps it so.
\<close>

lemma visit_loop_invariant:
  "\<forall>xs. set (set_list xs) \<subseteq> set xs
     \<Longrightarrow> \<forall>u \<in> set visited \<union> set queue. u = base \<or> check_url u base
     \<Longrightarrow> \<forall>u \<in> set (visit_loop links set_list base max_num visited queue).
           u = base \<or> check_url u base"
proof (induction links set_list base max_num visited queue rule: visit_loop.induct)
  case (1 links set_list base_url max_num urls_visited)
  then show ?case by (simp add: visit_loop.simps)
next
  case (2 links set_list base_url max_num urls_visited current_url rest)
  note sl = "2.prems"(1) and inv = "2.prems"(2)
  show ?case
  proof (cases "int (length urls_visited) \<ge> max_num")
    case True
    with inv show ?thesis by (simp add: visit_loop.simps)
  next
    case False
    note nf = this
    show ?thesis
    proof (cases "current_url \<in> set urls_visited")
      case True
      with nf "2.IH"(1) sl inv show ?thesis by (simp add: visit_loop.simps)
    next
      case False
      let ?new = "get_outsource_urls links set_list current_url base_url"
      have new: "\<forall>u \<in> set ?new. check_url u base_url"
        using sl by (intro get_outsource_urls_checked) blast
      have sub: "set (set_list (rest @ ?new)) \<subseteq> set (rest @ ?new)"
        using sl by blast
      have "\<forall>u\<in>set (urls_visited @ [current_url]) \<union> set (set_list (rest @ ?new)).
              u = base_url \<or> check_url u base_url"
        using inv new sub by auto
      with nf False "2.IH"(2) sl show ?thesis by (simp add: visit_loop.simps)
    qed
  qed
qed

lemma get_all_urls_nonpositive:
  "max_num \<le> 0 \<Longrightarrow> get_all_urls links set_list base_url max_num = []"
  by (simp add: get_all_urls_def Let_def slice_to_def visit_loop.simps)

text \<open>
  C10. With \<open>max_num \<le> 0\<close> the result of \<^verbatim>\<open>get_all_urls\<close> is the empty list. With
  \<open>max_num \<ge> 1\<close> the normalized base URL (fragment stripped, trailing slashes removed)
  is in the result, whatever the URL is and whatever the pages link to: it is put into
  the queue without going through \<^verbatim>\<open>_check_url\<close>.
\<close>

theorem get_all_urls_empty_or_has_base:
  "(max_num \<le> 0 \<longrightarrow> get_all_urls links set_list base_url max_num = [])
   \<and> (1 \<le> max_num \<longrightarrow>
        normalize_url base_url \<in> set (get_all_urls links set_list base_url max_num))"
proof (intro conjI impI)
  assume "max_num \<le> 0"
  then show "get_all_urls links set_list base_url max_num = []"
    by (rule get_all_urls_nonpositive)
next
  assume m: "1 \<le> max_num"
  let ?b = "normalize_url base_url"
  obtain ys where ys: "visit_loop links set_list ?b max_num [?b]
      (set_list ([] @ get_outsource_urls links set_list ?b ?b)) = [?b] @ ys"
    using visit_loop_prefix by blast
  from m have "visit_loop links set_list ?b max_num [] [?b] = ?b # ys"
    using ys by (simp add: visit_loop.simps)
  moreover from m have "slice_to max_num (?b # ys) = ?b # take (nat max_num - 1) ys"
    by (simp add: slice_to_def take_Cons')
  ultimately have "set (get_all_urls links set_list base_url max_num)
      = set (?b # take (nat max_num - 1) ys)"
    unfolding get_all_urls_def Let_def by (simp only: set_sort)
  then show "?b \<in> set (get_all_urls links set_list base_url max_num)"
    by simp
qed

theorem get_all_urls_empty_or_has_base_witness:
  "(0::int) \<le> 0 \<and> get_all_urls example_site set_list_up ''http://s/a.pdf/#top'' 0 = []
   \<and> (1::int) \<le> 1
   \<and> normalize_url ''http://s/a.pdf/#top'' = ''http://s/a.pdf''
   \<and> ''http://s/a.pdf'' \<in> set (get_all_urls example_site set_list_up ''http://s/a.pdf/#top'' 1)"
  using get_all_urls_empty_or_has_base [of 0 example_site set_list_up "''http://s/a.pdf/#top''"]
    get_all_urls_empty_or_has_base [of 1 example_site set_list_up "''http://s/a.pdf/#top''"]
  by (simp add: normalize_url_def rstrip_slash_def split_hash_first_def)

text \<open>
  C6, as the code has it. When the iteration order of a set only yields elements of
  the set, the result of \<^verbatim>\<open>get_all_urls\<close> is sorted ascending, has at most
  \<open>max 0 max_num\<close> elements, every URL in it starts with the normalized base URL, and
  every URL in it other than the normalized base URL itself contains none of the
  denylisted extensions, in particular does not end in one.
\<close>

theorem get_all_urls_sorted_bounded_filtered:
  assumes "\<forall>xs. set (set_list xs) \<subseteq> set xs"
  shows "sorted (get_all_urls links set_list base_url max_num)
    \<and> int (length (get_all_urls links set_list base_url max_num)) \<le> max 0 max_num
    \<and> (\<forall>u \<in> set (get_all_urls links set_list base_url max_num).
          startswith u (normalize_url base_url)
          \<and> (u \<noteq> normalize_url base_url \<longrightarrow>
               (\<forall>kw \<in> set kw_list. \<not> str_in kw u \<and> \<not> suffix kw u)))"
proof (intro conjI ballI)
  let ?b = "normalize_url base_url"
  let ?v = "visit_loop links set_list ?b max_num [] [?b]"
  show "sorted (get_all_urls links set_list base_url max_num)"
    by (simp only: get_all_urls_def Let_def sorted_sort)
  show "int (length (get_all_urls links set_list base_url max_num)) \<le> max 0 max_num"
  proof (cases "max_num \<le> 0")
    case True
    then show ?thesis by (simp add: get_all_urls_nonpositive)
  next
    case False
    then have "length (get_all_urls links set_list base_url max_num) \<le> nat max_num"
      by (simp only: get_all_urls_def Let_def length_sort slice_to_def) simp
    with False show ?thesis by simp
  qed
  fix u assume "u \<in> set (get_all_urls links set_list base_url max_num)"
  then have "u \<in> set ?v"
    using set_slice_to[of max_num ?v] by (auto simp: get_all_urls_def Let_def)
  moreover have "\<forall>u \<in> set ?v. u = ?b \<or> check_url u ?b"
    using assms by (intro visit_loop_invariant) auto
  ultimately have u: "u = ?b \<or> check_url u ?b" by blast
  then show "startswith u ?b"
    by (auto simp: check_url_def startswith_def)
  from u show "u \<noteq> ?b \<longrightarrow> (\<forall>kw \<in> set kw_list. \<not> str_in kw u \<and> \<not> suffix kw u)"
    by (auto simp: check_url_def list_ex_iff dest: suffix_str_in)
qed

theorem get_all_urls_sorted_bounded_filtered_witness:
  "(\<forall>xs. set (set_list_up xs) \<subseteq> set xs)
   \<and> get_all_urls example_site set_list_up ''http://s/#x'' 3
       = [''http://s'', ''http://s/a'', ''http://s/b'']
   \<and> sorted (get_all_urls example_site set_list_up ''http://s/#x'' 3)
   \<and> int (length (get_all_urls example_site set_list_up ''http://s/#x'' 3)) \<le> max 0 3
   \<and> startswith ''http://s/b'' (normalize_url ''http://s/#x'')
   \<and> ''http://s/b'' \<noteq> normalize_url ''http://s/#x''
   \<and> ''.pdf'' \<in> set kw_list
   \<and> \<not> str_in ''.pdf'' ''http://s/b'' \<and> \<not> suffix ''.pdf'' ''http://s/b''"
proof -
  have h: "\<forall>xs. set (set_list_up xs) \<subseteq> set xs"
    by (simp add: set_list_up_def)
  have e: "get_all_urls example_site set_list_up ''http://s/#x'' 3
       = [''http://s'', ''http://s/a'', ''http://s/b'']"
    by (simp add: get_all_urls_eval)
  have n: "''http://s/b'' \<noteq> normalize_url ''http://s/#x''"
    by (simp add: normalize_url_def rstrip_slash_def split_hash_first_def)
  have k: "''.pdf'' \<in> set kw_list"
    by (simp add: kw_list_def)
  from h e n k get_all_urls_sorted_bounded_filtered [OF h, of example_site "''http://s/#x''" 3]
  show ?thesis by simp
qed

text \<open>
  C6 as stated fails at the base URL \<^verbatim>\<open>http://x/a.pdf\<close> with \<open>max_num = 1\<close> on a site
  without links: the result contains that URL, which ends in the denylisted extension
  \<^verbatim>\<open>.pdf\<close>. It also fails at \<open>max_num = - 1\<close>, where the result is empty and its
  length 0 is not at most \<open>- 1\<close>.
\<close>

theorem get_all_urls_denylist_counterexample:
  "''http://x/a.pdf'' \<in> set (get_all_urls no_links set_list_up ''http://x/a.pdf'' 1)
   \<and> ''.pdf'' \<in> set kw_list
   \<and> suffix ''.pdf'' ''http://x/a.pdf''
   \<and> \<not> int (length (get_all_urls no_links set_list_up ''http://x'' (- 1))) \<le> - 1"
  by (simp add: get_all_urls_eval no_links_def suffix_def)

text \<open>
  C3 at two failing inputs. The queue is rebuilt from a set after every visit, so the
  page visited next depends on the iteration order of that set. \<open>set_list_up\<close>,
  \<open>set_list_down\<close> and \<open>set_list_fifo\<close> all list a set without duplicates.
  \<^item> The start page links to \<^verbatim>\<open>/a\<close> and \<^verbatim>\<open>/b\<close> and \<open>max_num\<close> is 2: two runs over the
    same links return different lists.
  \<^item> The start page links to \<^verbatim>\<open>/a\<close> and \<^verbatim>\<open>/b\<close>, the page \<^verbatim>\<open>/a\<close> links to \<^verbatim>\<open>/a/c\<close>, and
    \<open>max_num\<close> is 3: a first-in first-out queue visits the two pages of depth 1, and the
    run under \<open>set_list_up\<close> visits \<^verbatim>\<open>/a/c\<close>, of depth 2, before \<^verbatim>\<open>/b\<close>, of depth 1, and
    returns it in place of \<^verbatim>\<open>/b\<close>.
\<close>

theorem get_all_urls_depends_on_set_order:
  "(\<forall>xs. set (set_list_up xs) = set xs \<and> distinct (set_list_up xs))
   \<and> (\<forall>xs. set (set_list_down xs) = set xs \<and> distinct (set_list_down xs))
   \<and> (\<forall>xs. set (set_list_fifo xs) = set xs \<and> distinct (set_list_fifo xs))
   \<and> get_all_urls example_site set_list_up ''http://s'' 2 = [''http://s'', ''http://s/a'']
   \<and> get_all_urls example_site set_list_down ''http://s'' 2 = [''http://s'', ''http://s/b'']
   \<and> get_all_urls deep_site set_list_fifo ''http://s'' 3
       = [''http://s'', ''http://s/a'', ''http://s/b'']
   \<and> get_all_urls deep_site set_list_up ''http://s'' 3
       = [''http://s'', ''http://s/a'', ''http://s/a/c'']"
proof (intro conjI)
  show "\<forall>xs. set (set_list_up xs) = set xs \<and> distinct (set_list_up xs)"
    by (simp add: set_list_up_def)
  show "\<forall>xs. set (set_list_down xs) = set xs \<and> distinct (set_list_down xs)"
    by (simp add: set_list_down_def)
  show "\<forall>xs. set (set_list_fifo xs) = set xs \<and> distinct (set_list_fifo xs)"
    by (simp add: set_list_fifo_def)
  show "get_all_urls example_site set_list_up ''http://s'' 2 = [''http://s'', ''http://s/a'']"
    by (simp add: get_all_urls_eval)
  show "get_all_urls example_site set_list_down ''http://s'' 2 = [''http://s'', ''http://s/b'']"
    by (simp add: get_all_urls_eval)
  show "get_all_urls deep_site set_list_fifo ''http://s'' 3
       = [''http://s'', ''http://s/a'', ''http://s/b'']"
    by (simp add: get_all_urls_eval deep_site_def set_list_fifo_def)
  show "get_all_urls deep_site set_list_up ''http://s'' 3
       = [''http://s'', ''http://s/a'', ''http://s/a/c'']"
    by (simp add: get_all_urls_eval deep_site_def)
qed

section \<open>Properties of \<^verbatim>\<open>crawl_urls\<close>\<close>

lemma crawl_loop_map:
  "crawl_loop page urljoin docs url_objects = docs @ map (crawl_url page urljoin) url_objects"
  by (induction url_objects arbitrary: docs) auto

lemma crawl_url_id_source:
  "id' (crawl_url page urljoin url_obj) = id' url_obj
   \<and> source (crawl_url page urljoin url_obj) = source url_obj"
  by (auto simp: crawl_url_def split: sum.splits)

lemma crawl_url_failure:
  "crawl_try page urljoin url_obj = Inl err \<Longrightarrow>
     is_error (crawl_url page urljoin url_obj)
     \<and> error_message (crawl_url page urljoin url_obj) = Some err
     \<and> content (crawl_url page urljoin url_obj) = None"
  by (simp add: crawl_url_def)

lemma crawl_url_success:
  "crawl_try page urljoin url_obj = Inr (text_output, title) \<Longrightarrow>
     \<not> is_error (crawl_url page urljoin url_obj)
     \<and> error_message (crawl_url page urljoin url_obj) = None
     \<and> content (crawl_url page urljoin url_obj) = Some text_output"
  by (simp add: crawl_url_def)

lemmas crawl_eval =
  crawl_urls_def crawl_url_def crawl_try_def example_page_def example_soup_def
  example_urljoin_def offsite_page_def first_title_def startswith_def strip_def isspace_def

text \<open>
  C4. Once the browser has started, \<^verbatim>\<open>crawl_urls\<close> returns one record per locator, in
  the order of the input, with the locator's id and source. The record of a locator is
  the one the same call returns for that locator alone: when fetching or parsing it
  raises, the record is in error, carries the caught message and has no content; when
  it does not, the record is not in error and carries the text. No locator changes the
  record of another.
\<close>

theorem crawl_urls_same_length_isolated:
  assumes "driver = Inr page"
  shows "\<exists>docs. crawl_urls driver urljoin url_objects = Inr docs
     \<and> length docs = length url_objects
     \<and> (\<forall>i < length url_objects.
           id' (docs ! i) = id' (url_objects ! i)
         \<and> source (docs ! i) = source (url_objects ! i)
         \<and> crawl_urls driver urljoin [url_objects ! i] = Inr [docs ! i]
         \<and> (\<forall>err. crawl_try page urljoin (url_objects ! i) = Inl err \<longrightarrow>
                is_error (docs ! i) \<and> error_message (docs ! i) = Some err
                \<and> content (docs ! i) = None)
         \<and> (\<forall>text_output title.
                crawl_try page urljoin (url_objects ! i) = Inr (text_output, title) \<longrightarrow>
                \<not> is_error (docs ! i) \<and> error_message (docs ! i) = None
                \<and> content (docs ! i) = Some text_output))"
  using assms
  by (auto simp: crawl_urls_def crawl_loop_map crawl_url_id_source crawl_url_failure
      crawl_url_success)

theorem crawl_urls_same_length_isolated_witness:
  "crawl_try example_page example_urljoin \<lparr>id' = ''1'', source = ''http://s''\<rparr>
     = Inr (''Welcome'' @ [CHR 0x0A] @ ''about http://s/a'', ''Home'')
   \<and> crawl_try example_page example_urljoin \<lparr>id' = ''2'', source = ''http://bad''\<rparr>
     = Inl ''timeout''
   \<and> (\<exists>docs. crawl_urls (Inr example_page) example_urljoin
               [\<lparr>id' = ''1'', source = ''http://s''\<rparr>, \<lparr>id' = ''2'', source = ''http://bad''\<rparr>]
             = Inr docs
          \<and> length docs = 2
          \<and> id' (docs ! 0) = ''1'' \<and> id' (docs ! 1) = ''2''
          \<and> \<not> is_error (docs ! 0)
          \<and> content (docs ! 0) = Some (''Welcome'' @ [CHR 0x0A] @ ''about http://s/a'')
          \<and> is_error (docs ! 1) \<and> error_message (docs ! 1) = Some ''timeout''
          \<and> content (docs ! 1) = None)"
proof -
  let ?o1 = "\<lparr>id' = ''1'', source = ''http://s''\<rparr>"
  let ?o2 = "\<lparr>id' = ''2'', source = ''http://bad''\<rparr>"
  have t1: "crawl_try example_page example_urljoin ?o1
      = Inr (''Welcome'' @ [CHR 0x0A] @ ''about http://s/a'', ''Home'')"
    by (simp add: crawl_eval)
  have t2: "crawl_try example_page example_urljoin ?o2 = Inl ''timeout''"
    by (simp add: crawl_eval)
  obtain docs where d: "crawl_urls (Inr example_page) example_urljoin [?o1, ?o2] = Inr docs"
    and l: "length docs = length [?o1, ?o2]"
    and each: "\<forall>i < length [?o1, ?o2].
           id' (docs ! i) = id' ([?o1, ?o2] ! i)
         \<and> source (docs ! i) = source ([?o1, ?o2] ! i)
         \<and> crawl_urls (Inr example_page) example_urljoin [[?o1, ?o2] ! i] = Inr [docs ! i]
         \<and> (\<forall>err. crawl_try example_page example_urljoin ([?o1, ?o2] ! i) = Inl err \<longrightarrow>
                is_error (docs ! i) \<and> error_message (docs ! i) = Some err
                \<and> content (docs ! i) = None)
         \<and> (\<forall>text_output title.
                crawl_try example_page example_urljoin ([?o1, ?o2] ! i)
                  = Inr (text_output, title) \<longrightarrow>
                \<not> is_error (docs ! i) \<and> error_message (docs ! i) = None
                \<and> content (docs ! i) = Some text_output)"
    using crawl_urls_same_length_isolated [OF refl, of example_page example_urljoin "[?o1, ?o2]"]
    by blast
  from each have e0: "id' (docs ! 0) = ''1'' \<and> \<not> is_error (docs ! 0)
      \<and> content (docs ! 0) = Some (''Welcome'' @ [CHR 0x0A] @ ''about http://s/a'')"
    using t1 by force
  from each have e1: "id' (docs ! 1) = ''2'' \<and> is_error (docs ! 1)
      \<and> error_message (docs ! 1) = Some ''timeout'' \<and> content (docs ! 1) = None"
    using t2 by force
  from t1 t2 d l e0 e1 show ?thesis by simp
qed

section \<open>Properties of \<^verbatim>\<open>chunk\<close>\<close>

lemma chunk_step_fst:
  "fst (chunk_step split_text (docs, lds) doc_obj)
     = docs @ fst (chunk_step split_text ([], []) doc_obj)"
  by (simp add: chunk_step_def Let_def split: option.splits)

lemma chunk_step_snd:
  "snd (chunk_step split_text (docs, lds) doc_obj)
     = lds @ snd (chunk_step split_text ([], []) doc_obj)"
  by (simp add: chunk_step_def Let_def split: option.splits)

text \<open>Each input record adds its own records to the two lists, whatever came before.\<close>

lemma foldl_chunk_step:
  "foldl (chunk_step split_text) (docs, lds) doc_objs
     = (docs @ concat (map (\<lambda>d. fst (chunk_step split_text ([], []) d)) doc_objs),
        lds @ concat (map (\<lambda>d. snd (chunk_step split_text ([], []) d)) doc_objs))"
proof (induction doc_objs arbitrary: docs lds)
  case Nil
  show ?case by simp
next
  case (Cons d ds)
  obtain a b where ab: "chunk_step split_text (docs, lds) d = (a, b)"
    by (cases "chunk_step split_text (docs, lds) d")
  have a: "a = docs @ fst (chunk_step split_text ([], []) d)"
    using chunk_step_fst[of split_text docs lds d] ab by simp
  have b: "b = lds @ snd (chunk_step split_text ([], []) d)"
    using chunk_step_snd[of split_text docs lds d] ab by simp
  show ?case
    by (simp add: ab Cons.IH) (simp add: a b)
qed

lemma chunk_docs_concat:
  "chunk_docs split_text doc_objs
     = concat (map (\<lambda>d. fst (chunk_step split_text ([], []) d)) doc_objs)"
  by (simp add: chunk_docs_def chunk_lists_def foldl_chunk_step)

lemma chunk_concat:
  "chunk split_text doc_objs
     = concat (map (\<lambda>d. snd (chunk_step split_text ([], []) d)) doc_objs)"
  by (simp add: chunk_def chunk_lists_def foldl_chunk_step)


lemma make_chunk_invariant: "record_invariant (make_chunk doc_obj ip)"
  by (cases ip) (simp add: record_invariant_def make_chunk_def)

lemma chunk_step_members:
  "r \<in> set (fst (chunk_step split_text ([], []) d)) \<Longrightarrow>
     (r = d \<and> is_chunk d \<and> \<not> is_error d \<and> content d \<noteq> None)
     \<or> (\<exists>ip. r = make_chunk d ip)"
  by (auto simp: chunk_step_def Let_def split: option.splits if_splits)

lemma chunk_docs_members:
  "r \<in> set (chunk_docs split_text doc_objs) \<Longrightarrow>
     (r \<in> set doc_objs \<and> is_chunk r \<and> \<not> is_error r \<and> content r \<noteq> None)
     \<or> (\<exists>d ip. r = make_chunk d ip)"
  unfolding chunk_docs_concat using chunk_step_members by fastforce

text \<open>
  Every record of the record list is a chunk with content and free of error, so the
  record list is left unchanged by a second pass; the returned list of a batch of chunks
  is empty.
\<close>

lemma chunk_docs_all_chunks:
  "r \<in> set (chunk_docs split_text doc_objs) \<Longrightarrow>
     is_chunk r \<and> \<not> is_error r \<and> content r \<noteq> None"
  using chunk_docs_members[of r split_text doc_objs] by (auto simp: make_chunk_def)

lemma chunk_docs_of_chunks:
  "\<forall>r \<in> set xs. is_chunk r \<and> \<not> is_error r \<and> content r \<noteq> None \<Longrightarrow>
   chunk_docs split_text xs = xs"
  by (induction xs) (auto simp: chunk_docs_concat chunk_step_def)

lemma chunk_docs_idempotent:
  "chunk_docs split_text (chunk_docs split_text doc_objs) = chunk_docs split_text doc_objs"
  by (rule chunk_docs_of_chunks) (auto dest: chunk_docs_all_chunks)

lemma chunk_of_chunks_empty:
  "\<forall>r \<in> set xs. is_chunk r \<Longrightarrow> chunk split_text xs = []"
  by (induction xs) (auto simp: chunk_concat chunk_step_def split: option.splits)




text \<open>
  C2 at a failing input. A record already marked \<^verbatim>\<open>is_chunk\<close> is appended unchanged to
  the local list \<^verbatim>\<open>docs\<close>, and \<^verbatim>\<open>chunk\<close> returns the other list, \<^verbatim>\<open>langchain_docs\<close>,
  to which the record adds nothing: the output of \<^verbatim>\<open>chunk\<close> on that record is empty,
  and the record is not passed through.
\<close>

theorem chunk_returns_no_chunked_record:
  "is_chunk example_chunk
   \<and> chunk_docs split_spaces [example_chunk] = [example_chunk]
   \<and> chunk split_spaces [example_chunk] = []"
  by (simp add: chunk_docs_concat chunk_concat chunk_step_def example_chunk_def)

section \<open>The record invariant\<close>

lemma crawl_url_invariant: "record_invariant (crawl_url page urljoin url_obj)"
  by (auto simp: record_invariant_def crawl_url_def split: sum.splits)

lemma crawl_file_invariant: "record_invariant (crawl_file env local_obj)"
  by (auto simp: record_invariant_def crawl_file_def Let_def split: sum.splits)

text \<open>
  C5. Every record that \<^verbatim>\<open>crawl_urls\<close>, \<^verbatim>\<open>crawl_file\<close> and \<^verbatim>\<open>to_crawled_text\<close> return,
  and every record that \<^verbatim>\<open>chunk\<close> creates, has \<^verbatim>\<open>is_error\<close> set exactly when
  \<^verbatim>\<open>error_message\<close> is present and \<^verbatim>\<open>content\<close> \<^verbatim>\<open>None\<close> exactly when \<^verbatim>\<open>is_error\<close> is
  set. The record list of \<^verbatim>\<open>chunk\<close> holds, besides the records it creates, only input
  records already marked \<^verbatim>\<open>is_chunk\<close>, which it does not produce.
\<close>

theorem loader_records_invariant:
  "(\<forall>docs. crawl_urls driver urljoin url_objects = Inr docs \<longrightarrow>
       (\<forall>r \<in> set docs. record_invariant r))
   \<and> record_invariant (crawl_file env local_obj)
   \<and> (\<forall>r \<in> set (to_crawled_text uuid4 text_list). record_invariant r)
   \<and> (\<forall>r \<in> set (chunk_docs split_text doc_objs).
         record_invariant r \<or> (r \<in> set doc_objs \<and> is_chunk r))"
proof (intro conjI allI impI ballI)
  fix docs r
  assume "crawl_urls driver urljoin url_objects = Inr docs" and "r \<in> set docs"
  then show "record_invariant r"
    by (auto simp: crawl_urls_def crawl_loop_map crawl_url_invariant split: sum.splits)
next
  show "record_invariant (crawl_file env local_obj)"
    by (rule crawl_file_invariant)
next
  fix r assume "r \<in> set (to_crawled_text uuid4 text_list)"
  then show "record_invariant r"
    by (auto simp: to_crawled_text_def record_invariant_def)
next
  fix r assume "r \<in> set (chunk_docs split_text doc_objs)"
  from chunk_docs_members[OF this]
  show "record_invariant r \<or> (r \<in> set doc_objs \<and> is_chunk r)"
    by (auto simp: make_chunk_invariant)
qed

theorem loader_records_invariant_witness:
  "crawl_urls (Inr example_page) example_urljoin [\<lparr>id' = ''2'', source = ''http://bad''\<rparr>]
     = Inr [crawl_url example_page example_urljoin \<lparr>id' = ''2'', source = ''http://bad''\<rparr>]
   \<and> is_error (crawl_url example_page example_urljoin \<lparr>id' = ''2'', source = ''http://bad''\<rparr>)
   \<and> record_invariant
        (crawl_url example_page example_urljoin \<lparr>id' = ''2'', source = ''http://bad''\<rparr>)
   \<and> is_error (crawl_file example_env \<lparr>id' = ''f1'', source = ''photo.png''\<rparr>)
   \<and> record_invariant (crawl_file example_env \<lparr>id' = ''f1'', source = ''photo.png''\<rparr>)
   \<and> length (to_crawled_text example_uuid4 [''hello'']) = 1
   \<and> record_invariant (to_crawled_text example_uuid4 [''hello''] ! 0)
   \<and> make_chunk example_doc (0, ''one'') \<in> set (chunk_docs split_spaces [example_doc])
   \<and> record_invariant (make_chunk example_doc (0, ''one''))"
proof -
  let ?o = "\<lparr>id' = ''2'', source = ''http://bad''\<rparr>"
  let ?f = "\<lparr>id' = ''f1'', source = ''photo.png''\<rparr>"
  note inv = loader_records_invariant [of "Inr example_page" example_urljoin "[?o]"
      example_env ?f example_uuid4 "[''hello'']" split_spaces "[example_doc]"]
  have c: "crawl_urls (Inr example_page) example_urljoin [?o]
      = Inr [crawl_url example_page example_urljoin ?o]"
    by (simp add: crawl_urls_def)
  have ce: "is_error (crawl_url example_page example_urljoin ?o)"
    by (simp add: crawl_eval)
  from inv c have ci: "record_invariant (crawl_url example_page example_urljoin ?o)"
    by simp
  have fe: "is_error (crawl_file example_env ?f)"
    by (simp add: crawl_file_def extract_file_def example_env_def lstrip_dot_def Let_def)
  from inv have fi: "record_invariant (crawl_file example_env ?f)"
    by blast
  have tl: "length (to_crawled_text example_uuid4 [''hello'']) = 1"
    by (simp add: to_crawled_text_def enumerate0_def)
  then have "to_crawled_text example_uuid4 [''hello''] ! 0
      \<in> set (to_crawled_text example_uuid4 [''hello''])"
    by (intro nth_mem) simp
  with inv have ti: "record_invariant (to_crawled_text example_uuid4 [''hello''] ! 0)"
    by blast
  have km: "make_chunk example_doc (0, ''one'') \<in> set (chunk_docs split_spaces [example_doc])"
    by (simp add: chunk_docs_concat chunk_step_def example_doc_def enumerate0_def upt_rec)
  have "\<not> is_chunk example_doc"
    by (simp add: example_doc_def)
  moreover have "is_chunk (make_chunk example_doc (0, ''one''))"
    by (simp add: make_chunk_def)
  ultimately have "make_chunk example_doc (0, ''one'') \<noteq> example_doc"
    by auto
  with inv km have ki: "record_invariant (make_chunk example_doc (0, ''one''))"
    by auto
  from c ce ci fe fi tl ti km ki show ?thesis by blast
qed

section \<open>Metadata keys of ingested records\<close>

lemma crawl_url_keys:
  "''title'' \<in> dom (metadata (crawl_url page urljoin url_obj))
   \<and> ''source'' \<in> dom (metadata (crawl_url page urljoin url_obj))"
  by (auto simp: crawl_url_def split: sum.splits)

lemma crawl_file_keys:
  "''title'' \<in> dom (metadata (crawl_file env local_obj))
   \<and> (\<not> is_error (crawl_file env local_obj) \<longrightarrow>
        ''source'' \<in> dom (metadata (crawl_file env local_obj)))"
  by (auto simp: crawl_file_def Let_def split: sum.splits)

text \<open>
  C8, as the code has it. Every record of \<^verbatim>\<open>to_crawled_url_objs\<close>, in error or not, has
  the metadata keys \<^verbatim>\<open>title\<close> and \<^verbatim>\<open>source\<close>. Every record of
  \<^verbatim>\<open>to_crawled_local_objs\<close> has the key \<^verbatim>\<open>title\<close>, and the key \<^verbatim>\<open>source\<close> when it is
  not in error. The metadata of every record of \<^verbatim>\<open>to_crawled_text\<close> is empty.
\<close>

theorem ingestion_metadata_keys:
  "(\<forall>docs. to_crawled_url_objs uuid4 driver urljoin url_list = Inr docs \<longrightarrow>
       (\<forall>r \<in> set docs. ''title'' \<in> dom (metadata r) \<and> ''source'' \<in> dom (metadata r)))
   \<and> (\<forall>r \<in> set (to_crawled_local_objs uuid4 env file_list).
         ''title'' \<in> dom (metadata r)
         \<and> (\<not> is_error r \<longrightarrow> ''source'' \<in> dom (metadata r)))
   \<and> (\<forall>r \<in> set (to_crawled_text uuid4 text_list). dom (metadata r) = {})"
proof (intro conjI allI impI ballI)
  fix docs r
  assume "to_crawled_url_objs uuid4 driver urljoin url_list = Inr docs" and "r \<in> set docs"
  then obtain o' where "r = crawl_url (projr driver) urljoin o'"
    by (auto simp: to_crawled_url_objs_def crawl_urls_def crawl_loop_map split: sum.splits)
  then show "''title'' \<in> dom (metadata r)" and "''source'' \<in> dom (metadata r)"
    using crawl_url_keys by blast+
next
  fix r assume "r \<in> set (to_crawled_local_objs uuid4 env file_list)"
  then obtain o' where r: "r = crawl_file env o'"
    by (auto simp: to_crawled_local_objs_def)
  show "''title'' \<in> dom (metadata r)"
    using crawl_file_keys r by blast
  assume "\<not> is_error r"
  then show "''source'' \<in> dom (metadata r)"
    using crawl_file_keys r by blast
next
  fix r assume "r \<in> set (to_crawled_text uuid4 text_list)"
  then show "dom (metadata r) = {}"
    by (auto simp: to_crawled_text_def)
qed

theorem ingestion_metadata_keys_witness:
  "to_crawled_url_objs example_uuid4 (Inr example_page) example_urljoin [''http://bad'']
     = Inr [crawl_url example_page example_urljoin \<lparr>id' = ''uuid-0'', source = ''http://bad''\<rparr>]
   \<and> ''title'' \<in> dom (metadata
        (crawl_url example_page example_urljoin \<lparr>id' = ''uuid-0'', source = ''http://bad''\<rparr>))
   \<and> ''source'' \<in> dom (metadata
        (crawl_url example_page example_urljoin \<lparr>id' = ''uuid-0'', source = ''http://bad''\<rparr>))
   \<and> to_crawled_local_objs example_uuid4 example_env [''notes.txt'']
     = [crawl_file example_env \<lparr>id' = ''uuid-0'', source = ''notes.txt''\<rparr>]
   \<and> \<not> is_error (crawl_file example_env \<lparr>id' = ''uuid-0'', source = ''notes.txt''\<rparr>)
   \<and> ''title'' \<in> dom (metadata
        (crawl_file example_env \<lparr>id' = ''uuid-0'', source = ''notes.txt''\<rparr>))
   \<and> ''source'' \<in> dom (metadata
        (crawl_file example_env \<lparr>id' = ''uuid-0'', source = ''notes.txt''\<rparr>))
   \<and> length (to_crawled_text example_uuid4 [''hello'']) = 1
   \<and> dom (metadata (to_crawled_text example_uuid4 [''hello''] ! 0)) = {}"
proof -
  let ?o = "\<lparr>id' = ''uuid-0'', source = ''http://bad''\<rparr>"
  let ?f = "\<lparr>id' = ''uuid-0'', source = ''notes.txt''\<rparr>"
  note keys = ingestion_metadata_keys [of example_uuid4 "Inr example_page" example_urljoin
      "[''http://bad'']" example_env "[''notes.txt'']" "[''hello'']"]
  have u: "example_uuid4 0 = ''uuid-0''"
    by (simp add: example_uuid4_def str_nat.simps digit_char_def)
  have c: "to_crawled_url_objs example_uuid4 (Inr example_page) example_urljoin [''http://bad'']
      = Inr [crawl_url example_page example_urljoin ?o]"
    by (simp add: to_crawled_url_objs_def crawl_urls_def enumerate0_def u)
  from keys c have ck: "''title'' \<in> dom (metadata (crawl_url example_page example_urljoin ?o))"
    "''source'' \<in> dom (metadata (crawl_url example_page example_urljoin ?o))"
    by simp_all
  have f: "to_crawled_local_objs example_uuid4 example_env [''notes.txt'']
      = [crawl_file example_env ?f]"
    by (simp add: to_crawled_local_objs_def enumerate0_def u)
  have fe: "\<not> is_error (crawl_file example_env ?f)"
    by (auto simp: crawl_file_def extract_file_def example_env_def lstrip_dot_def Let_def)
  from keys f fe have fk: "''title'' \<in> dom (metadata (crawl_file example_env ?f))"
    "''source'' \<in> dom (metadata (crawl_file example_env ?f))"
    by simp_all
  have tl: "length (to_crawled_text example_uuid4 [''hello'']) = 1"
    by (simp add: to_crawled_text_def enumerate0_def)
  then have "to_crawled_text example_uuid4 [''hello''] ! 0
      \<in> set (to_crawled_text example_uuid4 [''hello''])"
    by (intro nth_mem) simp
  with keys have tk: "dom (metadata (to_crawled_text example_uuid4 [''hello''] ! 0)) = {}"
    by blast
  from c ck f fe fk tl tk show ?thesis by blast
qed

text \<open>
  C8 as stated fails for \<^verbatim>\<open>to_crawled_text\<close>: the record made from the text
  \<^verbatim>\<open>hello\<close> has neither the key \<^verbatim>\<open>title\<close> nor the key \<^verbatim>\<open>source\<close>.
\<close>

theorem to_crawled_text_metadata_counterexample:
  "length (to_crawled_text example_uuid4 [''hello'']) = 1
   \<and> ''title'' \<notin> dom (metadata (to_crawled_text example_uuid4 [''hello''] ! 0))
   \<and> ''source'' \<notin> dom (metadata (to_crawled_text example_uuid4 [''hello''] ! 0))"
  by (simp add: to_crawled_text_def enumerate0_def)

section \<open>Visible text and title of a crawled page\<close>






section \<open>Properties of \<^verbatim>\<open>get_candidates_websites\<close>\<close>


subsection \<open>The source-to-id table\<close>

lemma foldl_update_keys:
  "fst ` set (foldl (\<lambda>m url. AList.update (source url) (id' url) m) m urls)
     = fst ` set m \<union> source ` set urls"
  by (induction urls arbitrary: m) (auto simp: dom_update)





lemma url_to_id_mapping_keys: "fst ` set (url_to_id_mapping urls) = source ` set urls"
  by (simp add: url_to_id_mapping_def foldl_update_keys)





subsection \<open>The node and edge lists\<close>




subsection \<open>The graph\<close>





















subsection \<open>Ranking\<close>

















text \<open>
  A record that is not in error and has no content makes the substring test raise;
  when every such record has content the graph is built.
\<close>

lemma nodes_edges_loop_TypeError:
  "m \<noteq> [] \<Longrightarrow> \<exists>u \<in> set urls. \<not> is_error u \<and> content u = None \<Longrightarrow>
   nodes_edges_loop m (ns, es) urls = Inl TypeError"
proof (induction urls arbitrary: ns es)
  case Nil
  then show ?case by simp
next
  case (Cons u urls)
  show ?case
  proof (cases "is_error u")
    case True
    with Cons show ?thesis by auto
  next
    case False
    show ?thesis
    proof (cases "content u")
      case None
      with False Cons.prems(1) show ?thesis by (simp add: url_edges_def)
    next
      case (Some c)
      with False Cons show ?thesis by (auto simp: url_edges_def)
    qed
  qed
qed

lemma website_graph_TypeError:
  assumes "u \<in> set urls" and "\<not> is_error u" and "content u = None"
  shows "website_graph urls = Inl TypeError"
proof -
  from assms(1) have "source u \<in> fst ` set (url_to_id_mapping urls)"
    by (simp add: url_to_id_mapping_keys)
  then have "url_to_id_mapping urls \<noteq> []" by auto
  then have "nodes_edges_loop (url_to_id_mapping urls) ([], []) urls = Inl TypeError"
    using assms by (intro nodes_edges_loop_TypeError) auto
  then show ?thesis by (simp add: website_graph_def)
qed









end
